theory Spec2Isabelle
  imports Main
begin

section \<open>The scalar element type\<close>

text \<open>
  Every kernel is a template over \<open>T\<close>, guarded by \<open>IsScalar<T>\<close>: a 32-bit or a 64-bit
  IEEE-754 binary floating-point type. The template parameter becomes an explicit
  argument. A format is given by its precision \<open>prec\<close> (bits of the significand, hidden
  bit included) and by the least and greatest exponent of an integral significand.
\<close>

datatype scalar_type = Float32 | Float64

fun prec :: "scalar_type \<Rightarrow> nat" where
  "prec Float32 = 24"
| "prec Float64 = 53"

fun emin :: "scalar_type \<Rightarrow> int" where
  "emin Float32 = - 149"
| "emin Float64 = - 1074"

fun emax :: "scalar_type \<Rightarrow> int" where
  "emax Float32 = 104"
| "emax Float64 = 971"

text \<open>
  A value of the element type: \<open>Finite s m e\<close> is \<open>(-1)^s * m * 2^e\<close> (\<open>s\<close> true for
  negative), \<open>Infinity s\<close> a signed infinity, \<open>NaN\<close> a not-a-number (payloads are not
  distinguished). Zero has both signs: \<open>Finite False 0 e\<close> and \<open>Finite True 0 e\<close>.
\<close>

datatype fp = Finite bool nat int | Infinity bool | NaN

text \<open>
  The values a format really has: the significand fits the precision, the exponent
  is in range, and above the least exponent the significand is normalised.
\<close>

fun valid :: "scalar_type \<Rightarrow> fp \<Rightarrow> bool" where
  "valid T (Finite s m e) =
     (m < 2 ^ prec T \<and> emin T \<le> e \<and> e \<le> emax T \<and> (emin T < e \<longrightarrow> 2 ^ (prec T - 1) \<le> m))"
| "valid T (Infinity s) = True"
| "valid T NaN = True"

fun is_nan :: "fp \<Rightarrow> bool" where
  "is_nan NaN = True"
| "is_nan _ = False"

fun is_finite :: "fp \<Rightarrow> bool" where
  "is_finite (Finite s m e) = True"
| "is_finite _ = False"

fun is_zero :: "fp \<Rightarrow> bool" where
  "is_zero (Finite s m e) = (m = 0)"
| "is_zero _ = False"

text \<open>\<open>static_cast<T>(0.0)\<close> and \<open>static_cast<T>(1.0)\<close>.\<close>

definition fzero :: "scalar_type \<Rightarrow> fp" where
  "fzero T = Finite False 0 (emin T)"

definition fone :: "scalar_type \<Rightarrow> fp" where
  "fone T = Finite False (2 ^ (prec T - 1)) (- int (prec T - 1))"

subsection \<open>Rounding to nearest, ties to even\<close>

fun bitlen :: "nat \<Rightarrow> nat" where
  "bitlen n = (if n = 0 then 0 else Suc (bitlen (n div 2)))"

declare bitlen.simps [simp del]

text \<open>
  \<open>rnd T s M E\<close> rounds the exact value \<open>(-1)^s * M * 2^E\<close> into the format \<open>T\<close>:
  the target exponent keeps at most \<open>prec T\<close> bits of \<open>M\<close> and is at least \<open>emin T\<close>;
  the bits shifted out decide the rounding; a result beyond \<open>emax T\<close> overflows
  to infinity.
\<close>

definition rnd :: "scalar_type \<Rightarrow> bool \<Rightarrow> nat \<Rightarrow> int \<Rightarrow> fp" where
  "rnd T s M E =
     (if M = 0 then Finite s 0 (emin T)
      else
        let e' = max (E + int (bitlen M) - int (prec T)) (emin T) in
        if e' \<le> E then
          (if emax T < e' then Infinity s else Finite s (M * 2 ^ nat (E - e')) e')
        else
          let k = nat (e' - E);
              q = M div 2 ^ k;
              r = M mod 2 ^ k;
              h = 2 ^ (k - 1);
              q' = (if h < r \<or> (r = h \<and> odd q) then q + 1 else q)
          in
            if q' = 2 ^ prec T then
              (if emax T < e' + 1 then Infinity s else Finite s (2 ^ (prec T - 1)) (e' + 1))
            else if emax T < e' then Infinity s
            else Finite s q' e')"

subsection \<open>Arithmetic\<close>

fun fneg :: "fp \<Rightarrow> fp" where
  "fneg (Finite s m e) = Finite (\<not> s) m e"
| "fneg (Infinity s) = Infinity (\<not> s)"
| "fneg NaN = NaN"

fun fabs :: "fp \<Rightarrow> fp" where
  "fabs (Finite s m e) = Finite False m e"
| "fabs (Infinity s) = Infinity False"
| "fabs NaN = NaN"

text \<open>The signed integer \<open>(-1)^s * m * 2^(e - e0)\<close>, for \<open>e0 \<le> e\<close>.\<close>

definition aligned :: "bool \<Rightarrow> nat \<Rightarrow> int \<Rightarrow> int \<Rightarrow> int" where
  "aligned s m e e0 = (if s then - 1 else 1) * int m * 2 ^ nat (e - e0)"

fun fadd :: "scalar_type \<Rightarrow> fp \<Rightarrow> fp \<Rightarrow> fp" where
  "fadd T NaN y = NaN"
| "fadd T x NaN = NaN"
| "fadd T (Infinity s1) (Infinity s2) = (if s1 = s2 then Infinity s1 else NaN)"
| "fadd T (Infinity s1) (Finite s2 m2 e2) = Infinity s1"
| "fadd T (Finite s1 m1 e1) (Infinity s2) = Infinity s2"
| "fadd T (Finite s1 m1 e1) (Finite s2 m2 e2) =
     (let e0 = min e1 e2;
          z = aligned s1 m1 e1 e0 + aligned s2 m2 e2 e0
      in if z = 0 then Finite (s1 \<and> s2) 0 (emin T)
         else rnd T (z < 0) (nat \<bar>z\<bar>) e0)"

definition fsub :: "scalar_type \<Rightarrow> fp \<Rightarrow> fp \<Rightarrow> fp" where
  "fsub T x y = fadd T x (fneg y)"

fun fmul :: "scalar_type \<Rightarrow> fp \<Rightarrow> fp \<Rightarrow> fp" where
  "fmul T NaN y = NaN"
| "fmul T x NaN = NaN"
| "fmul T (Infinity s1) (Infinity s2) = Infinity (s1 \<noteq> s2)"
| "fmul T (Infinity s1) (Finite s2 m2 e2) = (if m2 = 0 then NaN else Infinity (s1 \<noteq> s2))"
| "fmul T (Finite s1 m1 e1) (Infinity s2) = (if m1 = 0 then NaN else Infinity (s1 \<noteq> s2))"
| "fmul T (Finite s1 m1 e1) (Finite s2 m2 e2) = rnd T (s1 \<noteq> s2) (m1 * m2) (e1 + e2)"

text \<open>
  Division and square root are not exact in binary: the quotient (the root) is computed
  with more than \<open>prec T + 2\<close> bits and a sticky bit that records a non-zero remainder,
  which is enough for \<open>rnd\<close> to round the exact value correctly.
\<close>

fun fdiv :: "scalar_type \<Rightarrow> fp \<Rightarrow> fp \<Rightarrow> fp" where
  "fdiv T NaN y = NaN"
| "fdiv T x NaN = NaN"
| "fdiv T (Infinity s1) (Infinity s2) = NaN"
| "fdiv T (Infinity s1) (Finite s2 m2 e2) = Infinity (s1 \<noteq> s2)"
| "fdiv T (Finite s1 m1 e1) (Infinity s2) = Finite (s1 \<noteq> s2) 0 (emin T)"
| "fdiv T (Finite s1 m1 e1) (Finite s2 m2 e2) =
     (if m2 = 0 then (if m1 = 0 then NaN else Infinity (s1 \<noteq> s2))
      else
        let sh = prec T + 2 + bitlen m2;
            n = m1 * 2 ^ sh;
            q = n div m2;
            sticky = (if n mod m2 = 0 then 0 else 1)
        in rnd T (s1 \<noteq> s2) (2 * q + sticky) (e1 - e2 - int sh - 1))"

text \<open>The integer square root, bit by bit: \<open>next_root\<close> decides the last bit.\<close>

definition next_root :: "nat \<Rightarrow> nat \<Rightarrow> nat" where
  "next_root n r = (if (r + 1) * (r + 1) \<le> n then r + 1 else r)"

fun isqrt :: "nat \<Rightarrow> nat" where
  "isqrt n = (if n < 2 then n else next_root n (2 * isqrt (n div 4)))"

declare isqrt.simps [simp del]

fun fsqrt :: "scalar_type \<Rightarrow> fp \<Rightarrow> fp" where
  "fsqrt T NaN = NaN"
| "fsqrt T (Infinity s) = (if s then NaN else Infinity False)"
| "fsqrt T (Finite s m e) =
     (if m = 0 then Finite s 0 (emin T)
      else if s then NaN
      else
        let sh0 = 2 * prec T + 4;
            sh = (if even (e - int sh0) then sh0 else sh0 + 1);
            n = m * 2 ^ sh;
            r = isqrt n;
            sticky = (if r * r = n then 0 else 1)
        in rnd T False (2 * r + sticky) ((e - int sh) div 2 - 1))"

text \<open>\<open>static_cast<T>(x)\<close> of a \<open>double\<close> \<open>x\<close>: the value rounded into the format \<open>T\<close>.\<close>

fun static_cast :: "scalar_type \<Rightarrow> fp \<Rightarrow> fp" where
  "static_cast T (Finite s m e) = rnd T s m e"
| "static_cast T (Infinity s) = Infinity s"
| "static_cast T NaN = NaN"

subsection \<open>Comparison\<close>

text \<open>The four outcomes of an IEEE comparison; a NaN operand makes it unordered.\<close>

datatype fp_order = Less | Equal | Greater | Unordered

definition int_cmp :: "int \<Rightarrow> int \<Rightarrow> fp_order" where
  "int_cmp a b = (if a < b then Less else if a = b then Equal else Greater)"

fun fcmp :: "fp \<Rightarrow> fp \<Rightarrow> fp_order" where
  "fcmp NaN y = Unordered"
| "fcmp x NaN = Unordered"
| "fcmp (Infinity s1) (Infinity s2) = (if s1 = s2 then Equal else if s1 then Less else Greater)"
| "fcmp (Infinity s1) (Finite s2 m2 e2) = (if s1 then Less else Greater)"
| "fcmp (Finite s1 m1 e1) (Infinity s2) = (if s2 then Greater else Less)"
| "fcmp (Finite s1 m1 e1) (Finite s2 m2 e2) =
     (let e0 = min e1 e2 in int_cmp (aligned s1 m1 e1 e0) (aligned s2 m2 e2 e0))"

definition fge :: "fp \<Rightarrow> fp \<Rightarrow> bool" where
  "fge x y = (fcmp x y = Greater \<or> fcmp x y = Equal)"

definition flt :: "fp \<Rightarrow> fp \<Rightarrow> bool" where
  "flt x y = (fcmp x y = Less)"

section \<open>Scalar kernels\<close>

text \<open>
  A buffer (\<open>Vec4Buffer<T>\<close>, \<open>Vec2Buffer<T>\<close>) is a fixed-length array of \<open>T\<close>: a list,
  of length \<open>VECTOR_SIZE\<close> for a \<open>Vector4\<close> and \<open>VECTOR_NDIM\<close> for a \<open>Vector2\<close>.
  A kernel that writes into \<open>dst\<close> returns the buffer written.
\<close>

type_synonym buffer = "fp list"

text \<open>
  Modelled from the spec: the headers that declare \<open>Vector4<T>::VECTOR_SIZE\<close> and
  \<open>Vector2<T>::VECTOR_NDIM\<close> are not part of the sources at hand; a vector has a fixed
  length of 4, respectively 2.
\<close>

definition VECTOR_SIZE :: nat where
  "VECTOR_SIZE = 4"

definition VECTOR_NDIM :: nat where
  "VECTOR_NDIM = 2"

text \<open>\<^verbatim>\<open>for (i = i0; i < n; ++i) s = body(i, s);\<close>\<close>

function for_loop :: "nat \<Rightarrow> nat \<Rightarrow> (nat \<Rightarrow> 's \<Rightarrow> 's) \<Rightarrow> 's \<Rightarrow> 's" where
  "for_loop i n body s = (if i < n then for_loop (Suc i) n body (body i s) else s)"
  by pat_completeness auto
termination
  by (relation "measure (\<lambda>(i, n, body, s). n - i)") auto

declare for_loop.simps [simp del]

text \<open>\<^verbatim>\<open>for (i = i0; i < n; ++i) if (differs(i)) return false;  return true;\<close>\<close>

function all_loop :: "nat \<Rightarrow> nat \<Rightarrow> (nat \<Rightarrow> bool) \<Rightarrow> bool" where
  "all_loop i n differs =
     (if i < n then (if differs i then False else all_loop (Suc i) n differs) else True)"
  by pat_completeness auto
termination
  by (relation "measure (\<lambda>(i, n, differs). n - i)") auto

declare all_loop.simps [simp del]

subsection \<open>Vector4\<close>

definition kernel_scale_vec4 :: "scalar_type \<Rightarrow> buffer \<Rightarrow> fp \<Rightarrow> buffer \<Rightarrow> buffer" where
  "kernel_scale_vec4 T dst scale vec =
     for_loop 0 VECTOR_SIZE (\<lambda>i dst. dst[i := fmul T scale (vec ! i)]) dst"

definition kernel_length_square_vec4 :: "scalar_type \<Rightarrow> buffer \<Rightarrow> fp" where
  "kernel_length_square_vec4 T vec =
     for_loop 0 VECTOR_SIZE (\<lambda>i accum. fadd T accum (fmul T (vec ! i) (vec ! i))) (fzero T)"

definition kernel_normalize_in_place_vec4 :: "scalar_type \<Rightarrow> buffer \<Rightarrow> buffer" where
  "kernel_normalize_in_place_vec4 T vec =
     (let length = fsqrt T (kernel_length_square_vec4 T vec)
      in for_loop 0 VECTOR_SIZE (\<lambda>i vec. vec[i := fdiv T (vec ! i) length]) vec)"

definition kernel_dot_vec4 :: "scalar_type \<Rightarrow> buffer \<Rightarrow> buffer \<Rightarrow> fp" where
  "kernel_dot_vec4 T lhs rhs =
     for_loop 0 VECTOR_SIZE (\<lambda>i accum. fadd T accum (fmul T (lhs ! i) (rhs ! i))) (fzero T)"

text \<open>
  The constant \<open>math::EPS\<close> is declared in a header that is not part of the sources at
  hand: it is the argument \<open>EPS\<close>, and the kernel casts it to \<open>T\<close> as the source does.
\<close>

definition kernel_compare_eq_vec4 :: "scalar_type \<Rightarrow> fp \<Rightarrow> buffer \<Rightarrow> buffer \<Rightarrow> bool" where
  "kernel_compare_eq_vec4 T EPS lhs rhs =
     all_loop 0 VECTOR_SIZE
       (\<lambda>i. fge (fabs (fsub T (lhs ! i) (rhs ! i))) (static_cast T EPS))"

subsection \<open>Vector2\<close>

definition kernel_scale_vec2 :: "scalar_type \<Rightarrow> buffer \<Rightarrow> fp \<Rightarrow> buffer \<Rightarrow> buffer" where
  "kernel_scale_vec2 T dst scale vec =
     for_loop 0 VECTOR_NDIM (\<lambda>i dst. dst[i := fmul T scale (vec ! i)]) dst"

definition kernel_length_square_vec2 :: "scalar_type \<Rightarrow> buffer \<Rightarrow> fp" where
  "kernel_length_square_vec2 T vec =
     for_loop 0 VECTOR_NDIM (\<lambda>i accum. fadd T accum (fmul T (vec ! i) (vec ! i))) (fzero T)"

definition kernel_dot_vec2 :: "scalar_type \<Rightarrow> buffer \<Rightarrow> buffer \<Rightarrow> fp" where
  "kernel_dot_vec2 T lhs rhs =
     for_loop 0 VECTOR_NDIM (\<lambda>i accum. fadd T accum (fmul T (lhs ! i) (rhs ! i))) (fzero T)"

text \<open>
  Here the tolerance is the variable template \<open>tiny::math::EPS<T>\<close>, declared elsewhere as
  well: the argument \<open>EPS\<close> gives its value for each element type.
\<close>

definition kernel_compare_eq_vec2 ::
  "scalar_type \<Rightarrow> (scalar_type \<Rightarrow> fp) \<Rightarrow> buffer \<Rightarrow> buffer \<Rightarrow> bool" where
  "kernel_compare_eq_vec2 T EPS lhs rhs =
     all_loop 0 VECTOR_NDIM (\<lambda>i. fge (fabs (fsub T (lhs ! i) (rhs ! i))) (EPS T))"

section \<open>Matrix4 and the operator layer\<close>

text \<open>
  Modelled from the spec: the class \<open>Matrix4<T>\<close> is declared in a header that is not part
  of the sources at hand. A matrix owns a contiguous buffer of \<open>BUFFER_SIZE = 16\<close>
  elements in column-major order: the element at \<open>(row, col)\<close>, which the code reads and
  writes as \<open>mat(row, col)\<close>, lives at the buffer offset \<open>col * 4 + row\<close>. The default
  constructor fills the buffer with zeros.
\<close>

record Matrix4 =
  elements :: buffer

definition BUFFER_SIZE :: nat where
  "BUFFER_SIZE = 16"

definition mat4_get :: "Matrix4 \<Rightarrow> nat \<Rightarrow> nat \<Rightarrow> fp" where
  "mat4_get mat row col = elements mat ! (col * 4 + row)"

definition mat4_set :: "Matrix4 \<Rightarrow> nat \<Rightarrow> nat \<Rightarrow> fp \<Rightarrow> Matrix4" where
  "mat4_set mat row col v = mat\<lparr>elements := (elements mat)[col * 4 + row := v]\<rparr>"

definition Matrix4_default :: "scalar_type \<Rightarrow> Matrix4" where
  "Matrix4_default T = \<lparr>elements = replicate BUFFER_SIZE (fzero T)\<rparr>"

text \<open>
  The build configuration: the two preprocessor symbols the operators test with
  \<^verbatim>\<open>#if defined(LOCOMATH_AVX_ENABLED) ... #elif defined(LOCOMATH_SSE_ENABLED) ... #else\<close>.
\<close>

record build_config =
  LOCOMATH_AVX_ENABLED :: bool
  LOCOMATH_SSE_ENABLED :: bool

text \<open>
  The matrix kernels of the three backends (namespaces \<open>avx\<close>, \<open>sse\<close> and \<open>scalar\<close>) are
  defined in headers that are not part of the sources at hand: the operators take them
  as arguments. A kernel that writes into \<open>dst\<close> returns the buffer written.
\<close>

record kernels =
  avx_kernel_scale_mat4 :: "scalar_type \<Rightarrow> buffer \<Rightarrow> fp \<Rightarrow> buffer \<Rightarrow> buffer"
  sse_kernel_scale_mat4 :: "scalar_type \<Rightarrow> buffer \<Rightarrow> fp \<Rightarrow> buffer \<Rightarrow> buffer"
  scalar_kernel_scale_mat4 :: "scalar_type \<Rightarrow> buffer \<Rightarrow> fp \<Rightarrow> buffer \<Rightarrow> buffer"
  scalar_kernel_compare_eq_mat4 :: "scalar_type \<Rightarrow> buffer \<Rightarrow> buffer \<Rightarrow> bool"

text \<open>\<open>operator*(double scale, const Matrix4<T>& mat)\<close>\<close>

definition mul_scalar_mat4 ::
  "build_config \<Rightarrow> kernels \<Rightarrow> scalar_type \<Rightarrow> fp \<Rightarrow> Matrix4 \<Rightarrow> Matrix4" where
  "mul_scalar_mat4 cfg K T scale mat =
     (let dst = Matrix4_default T in
      if LOCOMATH_AVX_ENABLED cfg then
        dst\<lparr>elements := avx_kernel_scale_mat4 K T (elements dst) (static_cast T scale) (elements mat)\<rparr>
      else if LOCOMATH_SSE_ENABLED cfg then
        dst\<lparr>elements := sse_kernel_scale_mat4 K T (elements dst) (static_cast T scale) (elements mat)\<rparr>
      else
        dst\<lparr>elements := scalar_kernel_scale_mat4 K T (elements dst) (static_cast T scale) (elements mat)\<rparr>)"

text \<open>\<open>operator*(const Matrix4<T>& mat, double scale)\<close>\<close>

definition mul_mat4_scalar ::
  "build_config \<Rightarrow> kernels \<Rightarrow> scalar_type \<Rightarrow> Matrix4 \<Rightarrow> fp \<Rightarrow> Matrix4" where
  "mul_mat4_scalar cfg K T mat scale =
     (let dst = Matrix4_default T in
      if LOCOMATH_AVX_ENABLED cfg then
        dst\<lparr>elements := avx_kernel_scale_mat4 K T (elements dst) (static_cast T scale) (elements mat)\<rparr>
      else if LOCOMATH_SSE_ENABLED cfg then
        dst\<lparr>elements := sse_kernel_scale_mat4 K T (elements dst) (static_cast T scale) (elements mat)\<rparr>
      else
        dst\<lparr>elements := scalar_kernel_scale_mat4 K T (elements dst) (static_cast T scale) (elements mat)\<rparr>)"

text \<open>\<open>operator==\<close> and \<open>operator!=\<close> of two matrices\<close>

definition eq_mat4 :: "build_config \<Rightarrow> kernels \<Rightarrow> scalar_type \<Rightarrow> Matrix4 \<Rightarrow> Matrix4 \<Rightarrow> bool" where
  "eq_mat4 cfg K T lhs rhs = scalar_kernel_compare_eq_mat4 K T (elements lhs) (elements rhs)"

definition neq_mat4 :: "build_config \<Rightarrow> kernels \<Rightarrow> scalar_type \<Rightarrow> Matrix4 \<Rightarrow> Matrix4 \<Rightarrow> bool" where
  "neq_mat4 cfg K T lhs rhs = (\<not> scalar_kernel_compare_eq_mat4 K T (elements lhs) (elements rhs))"

subsection \<open>Reading a matrix from a stream\<close>

text \<open>
  An input stream, as far as \<open>operator>>\<close> observes it: the \<open>failbit\<close> and the
  whitespace-separated tokens still to be read, each of which either converts to a
  value of \<open>T\<close> or does not.
\<close>

datatype token = Number fp | Malformed

record istream =
  failbit :: bool
  tokens :: "token list"

text \<open>
  \<open>input_stream >> x\<close> for a variable \<open>x\<close> of type \<open>T\<close>, the formatted extraction of the
  standard library: on a stream that has failed it does nothing; at the end of the input
  it sets \<open>failbit\<close> and leaves \<open>x\<close>; on a token that does not convert it sets
  \<open>failbit\<close> and stores zero; otherwise it stores the value and consumes the token.
\<close>

fun stream_extract :: "scalar_type \<Rightarrow> istream \<Rightarrow> fp \<Rightarrow> istream \<times> fp" where
  "stream_extract T s x =
     (if failbit s then (s, x)
      else case tokens s of
        [] \<Rightarrow> (s\<lparr>failbit := True\<rparr>, x)
      | Malformed # rest \<Rightarrow> (s\<lparr>failbit := True\<rparr>, fzero T)
      | Number v # rest \<Rightarrow> (s\<lparr>tokens := rest\<rparr>, v))"

text \<open>
  One extraction of the chain \<open>input_stream >> mat[0] >> ... >> mat[15]\<close>: the \<open>k\<close>-th
  reads into \<open>mat[k]\<close>.
\<close>

definition extract_step :: "scalar_type \<Rightarrow> nat \<Rightarrow> istream \<times> buffer \<Rightarrow> istream \<times> buffer" where
  "extract_step T = (\<lambda>k (s, mat). let (s, v) = stream_extract T s (mat ! k) in (s, mat[k := v]))"

text \<open>
  \<open>operator>>(std::istream&, Matrix4<T>&)\<close>. The local array \<open>mat\<close> is not initialised:
  its content before the extractions is the argument \<open>mat\<close>. The sixteen extractions
  run in the order of the indices; the sixteen assignments are those of the source,
  as \<open>(row, col, index)\<close>.
\<close>

definition read_mat4 :: "scalar_type \<Rightarrow> istream \<Rightarrow> Matrix4 \<Rightarrow> buffer \<Rightarrow> istream \<times> Matrix4" where
  "read_mat4 T input_stream dst mat =
     (let (input_stream, mat) =
            for_loop 0 BUFFER_SIZE (extract_step T) (input_stream, mat)
      in if \<not> failbit input_stream then
           (input_stream,
            fold (\<lambda>(row, col, k) dst. mat4_set dst row col (mat ! k))
              [(0, 0, 0), (0, 1, 1), (0, 2, 2), (0, 3, 3),
               (1, 0, 4), (1, 1, 5), (1, 2, 6), (1, 3, 7),
               (2, 0, 8), (2, 1, 9), (2, 2, 10), (2, 3, 11),
               (3, 0, 12), (3, 1, 13), (3, 2, 14), (3, 3, 15)] dst)
         else (input_stream, dst))"

text \<open>
  The first \<open>n\<close> extractions succeed: the stream has not failed, and it holds at least
  \<open>n\<close> tokens, the first \<open>n\<close> of which convert.
\<close>

definition tokens_parse :: "nat \<Rightarrow> istream \<Rightarrow> bool" where
  "tokens_parse n s =
     (\<not> failbit s \<and> n \<le> length (tokens s) \<and> list_all (\<lambda>t. t \<noteq> Malformed) (take n (tokens s)))"

section \<open>Properties of the loops and of the arithmetic\<close>

lemma for_loop_fold: "for_loop i n body s = fold body [i..<n] s"
proof (induction i n body s rule: for_loop.induct)
  case (1 i n body s)
  show ?case
  proof (cases "i < n")
    case True
    with "1" show ?thesis
      by (subst for_loop.simps) (simp add: upt_conv_Cons)
  next
    case False
    then show ?thesis
      by (subst for_loop.simps) simp
  qed
qed

lemma all_loop_step:
  "all_loop i n differs = (if i < n then \<not> differs i \<and> all_loop (Suc i) n differs else True)"
  by (subst all_loop.simps) simp

lemma range_split:
  "i < n \<Longrightarrow> (\<forall>j. i \<le> j \<and> j < n \<longrightarrow> P j) \<longleftrightarrow> P i \<and> (\<forall>j. Suc i \<le> j \<and> j < n \<longrightarrow> P j)" for i n :: nat
proof (intro iffI conjI allI impI)
  assume "i < n" and all: "\<forall>j. i \<le> j \<and> j < n \<longrightarrow> P j"
  then show "P i" by simp
  fix j assume "Suc i \<le> j \<and> j < n"
  with all show "P j" by simp
next
  fix j
  assume rest: "P i \<and> (\<forall>j. Suc i \<le> j \<and> j < n \<longrightarrow> P j)" and j: "i \<le> j \<and> j < n"
  show "P j"
  proof (cases "j = i")
    case True
    with rest show ?thesis by simp
  next
    case False
    with j have "Suc i \<le> j" by simp
    with rest j show ?thesis by simp
  qed
qed

lemma all_loop_iff: "all_loop i n differs \<longleftrightarrow> (\<forall>j. i \<le> j \<and> j < n \<longrightarrow> \<not> differs j)"
proof (induction i n differs rule: all_loop.induct)
  case (1 i n differs)
  show ?case
  proof (cases "i < n")
    case True
    show ?thesis
    proof (cases "differs i")
      case True
      with \<open>i < n\<close> have "\<not> all_loop i n differs"
        by (subst all_loop_step) simp
      moreover from True \<open>i < n\<close> have "\<not> (\<forall>j. i \<le> j \<and> j < n \<longrightarrow> \<not> differs j)"
        by (simp add: range_split)
      ultimately show ?thesis by simp
    next
      case False
      with \<open>i < n\<close> "1" have ih: "all_loop (Suc i) n differs \<longleftrightarrow> (\<forall>j. Suc i \<le> j \<and> j < n \<longrightarrow> \<not> differs j)"
        by simp
      from False \<open>i < n\<close> have "all_loop i n differs \<longleftrightarrow> all_loop (Suc i) n differs"
        by (subst all_loop_step) simp
      also note ih
      also from False \<open>i < n\<close> have "(\<forall>j. Suc i \<le> j \<and> j < n \<longrightarrow> \<not> differs j) \<longleftrightarrow> (\<forall>j. i \<le> j \<and> j < n \<longrightarrow> \<not> differs j)"
        by (simp add: range_split [of i n])
      finally show ?thesis .
    qed
  next
    case False
    then have "all_loop i n differs"
      by (subst all_loop_step) simp
    moreover from False have "\<forall>j. i \<le> j \<and> j < n \<longrightarrow> \<not> differs j"
      by auto
    ultimately show ?thesis by simp
  qed
qed

lemma xor_sign_commute: "(s1 \<noteq> s2) = (s2 \<noteq> s1)" for s1 s2 :: bool
  by auto

lemma fmul_commute: "fmul T x y = fmul T y x"
proof (cases x; cases y)
  fix s1 m1 e1 s2 m2 e2
  assume "x = Finite s1 m1 e1" and "y = Finite s2 m2 e2"
  then show ?thesis
    by (simp only: fmul.simps mult.commute [of m1 m2] add.commute [of e1 e2]
          xor_sign_commute [of s1 s2])
qed auto

subsection \<open>Rounding a value of the format\<close>

lemma prec_ge_2: "2 \<le> prec T"
  by (cases T) simp_all

lemma bitlen_0: "bitlen 0 = 0"
  by (simp add: bitlen.simps)

lemma bitlen_1 [simp]: "bitlen (Suc 0) = Suc 0"
  by (subst bitlen.simps) (simp add: bitlen_0)

lemma bitlen_Bit0 [simp]: "bitlen (numeral (num.Bit0 n)) = Suc (bitlen (numeral n))"
proof -
  have "numeral (num.Bit0 n) \<noteq> (0::nat)" and "numeral (num.Bit0 n) div 2 = (numeral n :: nat)"
    by (simp_all only: numeral_Bit0_div_2 numeral_neq_zero not_False_eq_True)
  then show ?thesis
    by (subst bitlen.simps) (simp only: if_False)
qed

lemma bitlen_Bit1 [simp]: "bitlen (numeral (num.Bit1 n)) = Suc (bitlen (numeral n))"
proof -
  have "numeral (num.Bit1 n) \<noteq> (0::nat)" and "numeral (num.Bit1 n) div 2 = (numeral n :: nat)"
    by (simp_all only: numeral_Bit1_div_2 numeral_neq_zero not_False_eq_True)
  then show ?thesis
    by (subst bitlen.simps) (simp only: if_False)
qed

lemma bitlen_le_iff: "bitlen m \<le> k \<longleftrightarrow> m < 2 ^ k"
proof (induction m arbitrary: k rule: bitlen.induct)
  case (1 m)
  show ?case
  proof (cases "m = 0")
    case True
    then show ?thesis by (simp add: bitlen_0)
  next
    case False
    then have unfold: "bitlen m = Suc (bitlen (m div 2))"
      by (subst bitlen.simps) simp
    show ?thesis
    proof (cases k)
      case 0
      with False unfold show ?thesis by simp
    next
      case (Suc k')
      from "1" False have "bitlen (m div 2) \<le> k' \<longleftrightarrow> m div 2 < 2 ^ k'"
        by simp
      moreover have "m div 2 < 2 ^ k' \<longleftrightarrow> m < 2 ^ Suc k'"
        by (simp add: less_mult_imp_div_less div_less_iff_less_mult mult.commute)
      ultimately show ?thesis
        using unfold Suc by simp
    qed
  qed
qed

lemma bitlen_eq: "2 ^ (p - 1) \<le> m \<Longrightarrow> m < 2 ^ p \<Longrightarrow> 0 < p \<Longrightarrow> bitlen m = p"
proof -
  assume lo: "2 ^ (p - 1) \<le> m" and hi: "m < 2 ^ p" and p: "0 < p"
  from hi have "bitlen m \<le> p" by (simp add: bitlen_le_iff)
  moreover from lo have "\<not> bitlen m \<le> p - 1" by (simp add: bitlen_le_iff)
  ultimately show ?thesis using p by simp
qed

lemma bitlen_shift: "0 < m \<Longrightarrow> bitlen (m * 2 ^ k) = bitlen m + k"
proof (induction k)
  case 0
  then show ?case by simp
next
  case (Suc k)
  then have "m * 2 ^ Suc k \<noteq> 0" by simp
  then have "bitlen (m * 2 ^ Suc k) = Suc (bitlen ((m * 2 ^ Suc k) div 2))"
    by (subst bitlen.simps) simp
  also have "(m * 2 ^ Suc k) div 2 = m * 2 ^ k" by simp
  finally show ?case using Suc by simp
qed

text \<open>The exponent \<open>rnd\<close> chooses for a value that is in the format already.\<close>

lemma valid_target_exponent:
  assumes "valid T (Finite s m e)" and "0 < m"
  shows "max (e + int (bitlen m) - int (prec T)) (emin T) = e"
proof (cases "emin T < e")
  case True
  with assms have "2 ^ (prec T - 1) \<le> m" and "m < 2 ^ prec T" by simp_all
  then have "bitlen m = prec T"
    using prec_ge_2 [of T] by (intro bitlen_eq) simp_all
  with True show ?thesis by simp
next
  case False
  with assms have e: "e = emin T" and "m < 2 ^ prec T" by simp_all
  then have "bitlen m \<le> prec T" by (simp add: bitlen_le_iff)
  with e show ?thesis by simp
qed

lemma rnd_exact:
  assumes v: "valid T (Finite s m e)"
  shows "rnd T s (m * 2 ^ k) (e - int k) = Finite s m e"
proof (cases "m = 0")
  case True
  with v have "e = emin T" using prec_ge_2 [of T] by auto
  with True show ?thesis by (simp add: rnd_def)
next
  case False
  then have m: "0 < m" by simp
  have tgt: "max (e - int k + int (bitlen (m * 2 ^ k)) - int (prec T)) (emin T) = e"
    using valid_target_exponent [OF v m] m by (simp add: bitlen_shift)
  from v have top: "\<not> emax T < e" and small: "m \<noteq> 2 ^ prec T" by auto
  show ?thesis
  proof (cases "k = 0")
    case True
    with tgt top m show ?thesis
      by (simp add: rnd_def Let_def)
  next
    case False
    then have "\<not> e \<le> e - int k" and "nat (e - (e - int k)) = k" and "(0::nat) < 2 ^ (k - 1)"
      by simp_all
    with tgt top small m show ?thesis
      by (simp add: rnd_def Let_def)
  qed
qed

lemma fmul_one: "valid T x \<Longrightarrow> fmul T (fone T) x = x"
proof (cases x)
  case (Finite s m e)
  assume "valid T x"
  with Finite have "rnd T s (m * 2 ^ (prec T - 1)) (e - int (prec T - 1)) = Finite s m e"
    by (simp only: rnd_exact)
  with Finite show ?thesis
    by (simp add: fone_def mult.commute)
qed (simp_all add: fone_def)

lemma fmul_zero: "is_finite x \<Longrightarrow> is_zero (fmul T (fzero T) x)"
  by (cases x) (simp_all add: fzero_def rnd_def)

subsection \<open>Differences and the tolerance test\<close>

lemma fsub_self: "fsub T x x = NaN \<or> fsub T x x = fzero T"
  by (cases x) (simp_all add: fsub_def fzero_def aligned_def)

lemma fsub_zero_zero: "is_zero x \<Longrightarrow> fabs (fsub T x (fzero T)) = fzero T"
  by (cases x) (simp_all add: fsub_def fzero_def aligned_def)

lemma not_fge_NaN: "\<not> fge NaN y"
  by (simp add: fge_def)

lemma not_fge_zero: "flt (fzero T) eps \<Longrightarrow> \<not> fge (fzero T) eps"
  by (simp add: fge_def flt_def)

lemma within_self: "flt (fzero T) eps \<Longrightarrow> \<not> fge (fabs (fsub T x x)) eps"
  using fsub_self [of T x] not_fge_NaN [of eps] not_fge_zero [of T eps]
  by (auto simp: fzero_def)

lemma fcmp_cases: "fcmp x y = Unordered \<longleftrightarrow> is_nan x \<or> is_nan y"
  by (cases x; cases y) (simp_all add: int_cmp_def Let_def)

lemma not_fge_iff: "\<not> fge x y \<longleftrightarrow> is_nan x \<or> is_nan y \<or> flt x y"
  using fcmp_cases [of x y] by (cases "fcmp x y") (simp_all add: fge_def flt_def)

lemma rnd_not_nan: "\<not> is_nan (rnd T s M E)"
  by (simp add: rnd_def Let_def)

lemma static_cast_not_nan: "\<not> is_nan x \<Longrightarrow> \<not> is_nan (static_cast T x)"
  by (cases x) (simp_all add: rnd_not_nan)

lemma is_nan_fabs: "is_nan (fabs x) = is_nan x"
  by (cases x) simp_all

subsection \<open>What the loops compute\<close>

lemma fold_store:
  "k \<le> length dst \<Longrightarrow>
   fold (\<lambda>i d. d[i := g i]) [0..<k] dst = map g [0..<k] @ drop k dst"
proof (induction k)
  case 0
  then show ?case by simp
next
  case (Suc k)
  then have "k < length dst" by simp
  then have "drop k dst = dst ! k # drop (Suc k) dst"
    by (simp add: Cons_nth_drop_Suc)
  with Suc show ?case
    by (simp add: list_update_append)
qed

lemma store_loop:
  "length dst = n \<Longrightarrow> for_loop 0 n (\<lambda>i d. d[i := g i]) dst = map g [0..<n]"
  by (simp add: for_loop_fold fold_store)

lemma map_index: "map (\<lambda>i. f (vec ! i)) [0..<length vec] = map f vec"
proof -
  have "map (\<lambda>i. f (vec ! i)) [0..<length vec] = map f (map ((!) vec) [0..<length vec])"
    by (simp only: map_map comp_def)
  then show ?thesis
    by (simp only: map_nth)
qed

lemma store_loop_nth:
  "length dst = n \<Longrightarrow> length vec = n \<Longrightarrow>
   for_loop 0 n (\<lambda>i d. d[i := f (vec ! i)]) dst = map f vec"
  using store_loop [of dst n "\<lambda>i. f (vec ! i)"] map_index [of f vec] by simp

lemma fold_update:
  "k \<le> length v \<Longrightarrow>
   fold (\<lambda>i v. v[i := g (v ! i)]) [0..<k] v = map g (take k v) @ drop k v"
proof (induction k)
  case 0
  then show ?case by simp
next
  case (Suc k)
  then have k: "k < length v" by simp
  then have "drop k v = v ! k # drop (Suc k) v"
    by (simp add: Cons_nth_drop_Suc)
  with Suc k show ?case
    by (simp add: list_update_append nth_append take_Suc_conv_app_nth)
qed

lemma update_loop:
  "length v = n \<Longrightarrow> for_loop 0 n (\<lambda>i v. v[i := g (v ! i)]) v = map g v"
  by (simp add: for_loop_fold fold_update)

lemma fold_accum_const:
  "(\<And>i. i < k \<Longrightarrow> step i a = a) \<Longrightarrow> fold step [0..<k] a = a"
  by (induction k) simp_all

lemma fold_update_length:
  "length (fold (\<lambda>i v. v[i := g i v]) is v) = length v"
  by (induction "is" arbitrary: v) simp_all

lemma map_all_const: "(\<And>x. x \<in> set v \<Longrightarrow> g x = c) \<Longrightarrow> map g v = replicate (length v) c"
  by (induction v) simp_all

lemma square_zero: "is_zero x \<Longrightarrow> fadd T (fzero T) (fmul T x x) = fzero T"
  by (cases x) (simp_all add: fzero_def rnd_def aligned_def)

lemma fdiv_zero_zero: "is_zero x \<Longrightarrow> fdiv T x (fzero T) = NaN"
  by (cases x) (simp_all add: fzero_def)

lemma fsqrt_zero: "fsqrt T (fzero T) = fzero T"
  by (simp add: fzero_def)

lemma length_square_zero:
  assumes "length v = VECTOR_SIZE" and "list_all is_zero v"
  shows "kernel_length_square_vec4 T v = fzero T"
proof -
  have "fadd T (fzero T) (fmul T (v ! i) (v ! i)) = fzero T" if "i < VECTOR_SIZE" for i
  proof -
    from that assms have "is_zero (v ! i)" by (simp add: list_all_length)
    then show ?thesis by (rule square_zero)
  qed
  then show ?thesis
    by (simp add: kernel_length_square_vec4_def for_loop_fold fold_accum_const)
qed

lemma tolerance_test:
  "\<not> is_nan eps \<Longrightarrow> \<not> fge (fabs d) eps \<longleftrightarrow> is_nan d \<or> flt (fabs d) eps"
  by (simp add: not_fge_iff is_nan_fabs)

lemma scale_by_one:
  assumes "length a = n" and "length dst = n" and "list_all (\<lambda>x. is_finite x \<and> valid T x) a"
  shows "for_loop 0 n (\<lambda>i dst. dst[i := fmul T (fone T) (a ! i)]) dst = a"
proof -
  from assms have "for_loop 0 n (\<lambda>i dst. dst[i := fmul T (fone T) (a ! i)]) dst = map (fmul T (fone T)) a"
    by (simp add: store_loop_nth)
  also from assms have "map (fmul T (fone T)) a = a"
    by (intro map_idI) (simp add: list_all_iff fmul_one)
  finally show ?thesis .
qed

lemma scale_by_zero:
  assumes "length a = n" and "length dst = n" and "list_all (\<lambda>x. is_finite x \<and> valid T x) a"
  shows "list_all is_zero (for_loop 0 n (\<lambda>i dst. dst[i := fmul T (fzero T) (a ! i)]) dst)"
proof -
  from assms have "for_loop 0 n (\<lambda>i dst. dst[i := fmul T (fzero T) (a ! i)]) dst = map (fmul T (fzero T)) a"
    by (simp add: store_loop_nth)
  moreover from assms have "list_all is_zero (map (fmul T (fzero T)) a)"
    by (simp add: list_all_iff fmul_zero)
  ultimately show ?thesis by simp
qed

lemma zeros_compare_eq:
  assumes "length z = n" and "list_all is_zero z" and "flt (fzero T) eps"
  shows "all_loop 0 n (\<lambda>i. fge (fabs (fsub T (z ! i) (replicate n (fzero T) ! i))) eps)"
proof -
  have "\<not> fge (fabs (fsub T (z ! j) (replicate n (fzero T) ! j))) eps" if "j < n" for j
  proof -
    from that assms have "is_zero (z ! j)" by (simp add: list_all_length)
    then have "fabs (fsub T (z ! j) (fzero T)) = fzero T" by (rule fsub_zero_zero)
    with that assms(3) show ?thesis by (simp add: not_fge_zero)
  qed
  then show ?thesis by (simp add: all_loop_iff)
qed

subsection \<open>The arithmetic on examples\<close>

lemma isqrt_0 [simp]: "isqrt 0 = 0"
  by (subst isqrt.simps) simp

lemma isqrt_1 [simp]: "isqrt (Suc 0) = Suc 0"
  by (subst isqrt.simps) simp

lemma isqrt_numeral [simp]:
  "isqrt (numeral k) =
     (if numeral k < (2::nat) then numeral k
      else next_root (numeral k) (2 * isqrt (numeral k div 4)))"
  by (subst isqrt.simps) simp

text \<open>
  The arithmetic gives the results of IEEE-754 hardware. In Float32: \<open>1 / 3\<close> is
  \<open>11184811 * 2^-25\<close> (the bits \<open>0x3EAAAAAB\<close>), the square root of two is
  \<open>11863283 * 2^-23\<close> (\<open>0x3FB504F3\<close>), and twice the greatest finite value overflows to
  infinity. In Float64: \<open>0.1 + 0.2\<close> is \<open>5404319552844596 * 2^-54\<close> (\<open>0x3FD3333333333334\<close>),
  the value next above 0.3.
\<close>

lemma example_one_third: "fdiv Float32 (fone Float32) (Finite False 12582912 (- 22)) = Finite False 11184811 (- 25)"
  by (simp add: fone_def rnd_def Let_def)

lemma example_sum_float64: "fadd Float64 (Finite False 7205759403792794 (- 56)) (Finite False 7205759403792794 (- 55))
   = Finite False 5404319552844596 (- 54)"
  by (simp add: aligned_def rnd_def Let_def)

lemma example_sqrt_two: "fsqrt Float32 (Finite False 8388608 (- 22)) = Finite False 11863283 (- 23)"
  by (simp add: rnd_def next_root_def Let_def)

lemma example_overflow: "fadd Float32 (Finite False 16777215 104) (Finite False 16777215 104) = Infinity False"
  by (simp add: aligned_def rnd_def Let_def)

text \<open>
  The vector \<open>(3, 4, 0, 0)\<close> normalised is \<open>(0.6, 0.8, 0, 0)\<close>, in Float32: the squared
  length is 25, its root is 5, and the quotients are the values of Float32 nearest to
  0.6 and 0.8.
\<close>

lemma example_normalize:
  "kernel_normalize_in_place_vec4 Float32
     [Finite False 12582912 (- 22), Finite False 8388608 (- 21), fzero Float32, fzero Float32] =
     [Finite False 10066330 (- 24), Finite False 13421773 (- 24), fzero Float32, fzero Float32]"
proof -
  have sq: "kernel_length_square_vec4 Float32
     [Finite False 12582912 (- 22), Finite False 8388608 (- 21), fzero Float32, fzero Float32]
     = Finite False 13107200 (- 19)"
    by (simp add: kernel_length_square_vec4_def for_loop_fold VECTOR_SIZE_def upt_rec [of _ "numeral _"]
          fzero_def rnd_def aligned_def Let_def)
  have root: "fsqrt Float32 (Finite False 13107200 (- 19)) = Finite False 10485760 (- 21)"
    by (simp add: rnd_def next_root_def Let_def)
  show ?thesis
    unfolding kernel_normalize_in_place_vec4_def sq root
    by (simp add: for_loop_fold VECTOR_SIZE_def upt_rec [of _ "numeral _"] fzero_def rnd_def
          Let_def)
qed

subsection \<open>The extractions of a matrix\<close>

lemma extract_step_failed: "failbit s \<Longrightarrow> extract_step T k (s, m) = (s, m)"
  by (simp add: extract_step_def)

lemma tokens_parse_Suc:
  "tokens_parse (Suc n) s \<longleftrightarrow>
   tokens_parse n s \<and> n < length (tokens s) \<and> tokens s ! n \<noteq> Malformed"
  by (auto simp: tokens_parse_def take_Suc_conv_app_nth)

lemma extraction_succeeds:
  "tokens_parse n s \<Longrightarrow> n \<le> length m \<Longrightarrow>
   \<exists>m'. fold (extract_step T) [0..<n] (s, m) = (s\<lparr>tokens := drop n (tokens s)\<rparr>, m') \<and>
        length m' = length m \<and> (\<forall>k<n. Number (m' ! k) = tokens s ! k)"
proof (induction n)
  case 0
  then show ?case by simp
next
  case (Suc n)
  then have parse: "tokens_parse n s" and n: "n < length (tokens s)"
    and tok: "tokens s ! n \<noteq> Malformed" and nm: "n < length m"
    by (simp_all add: tokens_parse_Suc)
  with Suc.IH obtain m' where
    run: "fold (extract_step T) [0..<n] (s, m) = (s\<lparr>tokens := drop n (tokens s)\<rparr>, m')"
    and len: "length m' = length m" and vals: "\<forall>k<n. Number (m' ! k) = tokens s ! k"
    by auto
  from tok obtain v where v: "tokens s ! n = Number v"
    by (cases "tokens s ! n") simp_all
  from n have next_tok: "drop n (tokens s) = tokens s ! n # drop (Suc n) (tokens s)"
    by (simp add: Cons_nth_drop_Suc)
  from parse have good: "\<not> failbit s" by (simp add: tokens_parse_def)
  have step: "extract_step T n (s\<lparr>tokens := drop n (tokens s)\<rparr>, m') =
              (s\<lparr>tokens := drop (Suc n) (tokens s)\<rparr>, m'[n := v])"
    using good next_tok v by (simp add: extract_step_def)
  have "\<forall>k<Suc n. Number (m'[n := v] ! k) = tokens s ! k"
    using vals v len nm by (simp add: less_Suc_eq nth_list_update)
  with run step len show ?case by simp
qed

lemma extraction_fails:
  "\<not> tokens_parse n s \<Longrightarrow> n \<le> length m \<Longrightarrow> failbit (fst (fold (extract_step T) [0..<n] (s, m)))"
proof (induction n)
  case 0
  then show ?case by (simp add: tokens_parse_def)
next
  case (Suc n)
  show ?case
  proof (cases "tokens_parse n s")
    case False
    with Suc have "failbit (fst (fold (extract_step T) [0..<n] (s, m)))" by simp
    then show ?thesis
      by (cases "fold (extract_step T) [0..<n] (s, m)") (simp add: extract_step_failed)
  next
    case True
    with Suc.prems obtain m' where
      run: "fold (extract_step T) [0..<n] (s, m) = (s\<lparr>tokens := drop n (tokens s)\<rparr>, m')"
      using extraction_succeeds [of n s m T] by auto
    from True Suc.prems have bad: "\<not> n < length (tokens s) \<or> tokens s ! n = Malformed"
      by (simp add: tokens_parse_Suc)
    from True have good: "\<not> failbit s" by (simp add: tokens_parse_def)
    have "failbit (fst (extract_step T n (s\<lparr>tokens := drop n (tokens s)\<rparr>, m')))"
    proof (cases "n < length (tokens s)")
      case True
      with bad have "drop n (tokens s) = Malformed # drop (Suc n) (tokens s)"
        by (simp add: Cons_nth_drop_Suc [symmetric])
      with good show ?thesis by (simp add: extract_step_def)
    next
      case False
      then have "drop n (tokens s) = []" by simp
      with good show ?thesis by (simp add: extract_step_def)
    qed
    with run show ?thesis by simp
  qed
qed

lemma less_16_cases:
  "k < 16 \<Longrightarrow> k = 0 \<or> k = 1 \<or> k = 2 \<or> k = 3 \<or> k = 4 \<or> k = 5 \<or> k = 6 \<or> k = 7 \<or>
     k = 8 \<or> k = 9 \<or> k = 10 \<or> k = 11 \<or> k = 12 \<or> k = 13 \<or> k = 14 \<or> k = (15::nat)"
  by arith

lemma row_major_stores:
  assumes "length (elements dst) = 16" and "k < 16"
  shows "mat4_get
           (fold (\<lambda>(row, col, k) dst. mat4_set dst row col (mat ! k))
              [(0, 0, 0), (0, 1, 1), (0, 2, 2), (0, 3, 3),
               (1, 0, 4), (1, 1, 5), (1, 2, 6), (1, 3, 7),
               (2, 0, 8), (2, 1, 9), (2, 2, 10), (2, 3, 11),
               (3, 0, 12), (3, 1, 13), (3, 2, 14), (3, 3, 15)] dst)
           (k div 4) (k mod 4) = mat ! k"
  using less_16_cases [OF assms(2)] assms(1)
  by (elim disjE) (simp_all add: mat4_get_def mat4_set_def)

lemma read_mat4_unfold:
  "read_mat4 T s dst mat =
     (case fold (extract_step T) [0..<BUFFER_SIZE] (s, mat) of
        (s', mat') \<Rightarrow>
          if \<not> failbit s' then
            (s',
             fold (\<lambda>(row, col, k) dst. mat4_set dst row col (mat' ! k))
              [(0, 0, 0), (0, 1, 1), (0, 2, 2), (0, 3, 3),
               (1, 0, 4), (1, 1, 5), (1, 2, 6), (1, 3, 7),
               (2, 0, 8), (2, 1, 9), (2, 2, 10), (2, 3, 11),
               (3, 0, 12), (3, 1, 13), (3, 2, 14), (3, 3, 15)] dst)
          else (s', dst))"
  by (simp add: read_mat4_def for_loop_fold)

section \<open>Claims\<close>

text \<open>
  C1. Reading a matrix is fail-soft. For every destination matrix and every input:
  if one of the sixteen extractions fails (the stream had failed, it holds fewer than
  sixteen tokens, or one of the first sixteen does not convert), the stream ends with
  \<open>failbit\<close> set and the destination is the matrix it was, no component written; if all
  sixteen tokens convert, \<open>failbit\<close> stays clear and token \<open>k\<close> is the element at row
  \<open>k div 4\<close>, column \<open>k mod 4\<close>.
\<close>

theorem C1_read_mat4_fail_soft:
  assumes "length (elements dst) = BUFFER_SIZE" and "length mat = BUFFER_SIZE"
  shows "(\<not> tokens_parse BUFFER_SIZE s \<longrightarrow>
            failbit (fst (read_mat4 T s dst mat)) \<and> snd (read_mat4 T s dst mat) = dst) \<and>
         (tokens_parse BUFFER_SIZE s \<longrightarrow>
            \<not> failbit (fst (read_mat4 T s dst mat)) \<and>
            (\<forall>k<BUFFER_SIZE.
               Number (mat4_get (snd (read_mat4 T s dst mat)) (k div 4) (k mod 4)) = tokens s ! k))"
proof (intro conjI impI)
  assume "\<not> tokens_parse BUFFER_SIZE s"
  with assms(2) have failed: "failbit (fst (fold (extract_step T) [0..<BUFFER_SIZE] (s, mat)))"
    by (simp add: extraction_fails)
  obtain s' mat' where run: "fold (extract_step T) [0..<BUFFER_SIZE] (s, mat) = (s', mat')"
    by (cases "fold (extract_step T) [0..<BUFFER_SIZE] (s, mat)")
  with failed have "failbit s'" by simp
  with run show "failbit (fst (read_mat4 T s dst mat))"
    by (simp add: read_mat4_unfold)
  from run \<open>failbit s'\<close> show "snd (read_mat4 T s dst mat) = dst"
    by (simp add: read_mat4_unfold)
next
  assume "tokens_parse BUFFER_SIZE s"
  with assms(2) obtain mat' where
    run: "fold (extract_step T) [0..<BUFFER_SIZE] (s, mat) =
            (s\<lparr>tokens := drop BUFFER_SIZE (tokens s)\<rparr>, mat')"
    and vals: "\<forall>k<BUFFER_SIZE. Number (mat' ! k) = tokens s ! k"
    and good: "\<not> failbit s"
    using extraction_succeeds [of BUFFER_SIZE s mat T] by (auto simp: tokens_parse_def)
  from run good show "\<not> failbit (fst (read_mat4 T s dst mat))"
    by (simp add: read_mat4_unfold)
  show "\<forall>k<BUFFER_SIZE.
          Number (mat4_get (snd (read_mat4 T s dst mat)) (k div 4) (k mod 4)) = tokens s ! k"
  proof (intro allI impI)
    fix k assume k: "k < BUFFER_SIZE"
    with assms(1) have "mat4_get (snd (read_mat4 T s dst mat)) (k div 4) (k mod 4) = mat' ! k"
      using run good row_major_stores [of dst k mat']
      by (simp add: read_mat4_unfold BUFFER_SIZE_def)
    with vals k show "Number (mat4_get (snd (read_mat4 T s dst mat)) (k div 4) (k mod 4)) = tokens s ! k"
      by simp
  qed
qed

text \<open>
  Sixteen tokens for the values \<open>1 + k * 2^-23\<close> of Float32, read into a zero matrix: token
  6 is the element at row 1, column 2. An input whose second token does not convert
  leaves the matrix as it was.
\<close>

theorem C1_witness:
  "length (elements (Matrix4_default Float32)) = BUFFER_SIZE \<and>
   length (replicate 16 NaN) = BUFFER_SIZE \<and>
   tokens_parse BUFFER_SIZE
     \<lparr>failbit = False,
      tokens = map (\<lambda>k. Number (Finite False (8388608 + k) (- 23))) [0..<16]\<rparr> \<and>
   Number (mat4_get (snd (read_mat4 Float32
       \<lparr>failbit = False,
        tokens = map (\<lambda>k. Number (Finite False (8388608 + k) (- 23))) [0..<16]\<rparr>
       (Matrix4_default Float32) (replicate 16 NaN))) 1 2)
     = Number (Finite False 8388614 (- 23)) \<and>
   \<not> tokens_parse BUFFER_SIZE
     \<lparr>failbit = False, tokens = [Number (Finite False 8388608 (- 23)), Malformed]\<rparr> \<and>
   snd (read_mat4 Float32
       \<lparr>failbit = False, tokens = [Number (Finite False 8388608 (- 23)), Malformed]\<rparr>
       (Matrix4_default Float32) (replicate 16 NaN)) = Matrix4_default Float32"
proof -
  let ?good = "\<lparr>failbit = False,
      tokens = map (\<lambda>k. Number (Finite False (8388608 + k) (- 23))) [0..<16]\<rparr>"
  let ?bad = "\<lparr>failbit = False, tokens = [Number (Finite False 8388608 (- 23)), Malformed]\<rparr>"
  have dst: "length (elements (Matrix4_default Float32)) = BUFFER_SIZE"
    by (simp add: Matrix4_default_def)
  have mat: "length (replicate 16 NaN) = BUFFER_SIZE"
    by (simp add: BUFFER_SIZE_def)
  have good: "tokens_parse BUFFER_SIZE ?good"
    by (simp add: tokens_parse_def BUFFER_SIZE_def list_all_iff)
  have bad: "\<not> tokens_parse BUFFER_SIZE ?bad"
    by (simp add: tokens_parse_def BUFFER_SIZE_def)
  have six: "(6::nat) < BUFFER_SIZE" "(6::nat) div 4 = 1" "(6::nat) mod 4 = 2"
    "tokens ?good ! 6 = Number (Finite False 8388614 (- 23))"
    by (simp_all add: BUFFER_SIZE_def)
  note inst_good = C1_read_mat4_fail_soft [OF dst mat, of ?good Float32, THEN conjunct2, THEN mp,
      OF good, THEN conjunct2, THEN spec, of 6, THEN mp, OF six(1)]
  note inst_bad = C1_read_mat4_fail_soft [OF dst mat, of ?bad Float32, THEN conjunct1, THEN mp,
      OF bad, THEN conjunct2]
  from inst_good six have "Number (mat4_get (snd (read_mat4 Float32 ?good
       (Matrix4_default Float32) (replicate 16 NaN))) 1 2) = Number (Finite False 8388614 (- 23))"
    by (simp only:)
  with dst mat good bad inst_bad show ?thesis
    by (intro conjI)
qed

text \<open>
  C2, as the code has it. \<open>compare_eq\<close> returns false exactly when some component pair
  has \<open>|lhs[i] - rhs[i]| >= EPS\<close>: one pair at or beyond the tolerance fails the whole
  comparison, and no sum over the components is formed. Hence, for a tolerance that is
  not NaN, it returns true exactly when every component pair either differs by strictly
  less than the tolerance or has a difference that is NaN (a NaN component, or two
  infinities of the same sign): the test \<open>>=\<close> is false on a NaN, so such a pair never
  fails the comparison. The claim as stated, without the NaN case, is refuted below.
\<close>

theorem C2_compare_eq_componentwise:
  "(kernel_compare_eq_vec4 T EPS lhs rhs \<longleftrightarrow>
      \<not> (\<exists>i<VECTOR_SIZE. fge (fabs (fsub T (lhs ! i) (rhs ! i))) (static_cast T EPS))) \<and>
   (kernel_compare_eq_vec2 T EPS_T lhs rhs \<longleftrightarrow>
      \<not> (\<exists>i<VECTOR_NDIM. fge (fabs (fsub T (lhs ! i) (rhs ! i))) (EPS_T T))) \<and>
   (\<not> is_nan EPS \<longrightarrow>
      (kernel_compare_eq_vec4 T EPS lhs rhs \<longleftrightarrow>
         (\<forall>i<VECTOR_SIZE. is_nan (fsub T (lhs ! i) (rhs ! i)) \<or>
                           flt (fabs (fsub T (lhs ! i) (rhs ! i))) (static_cast T EPS)))) \<and>
   (\<not> is_nan (EPS_T T) \<longrightarrow>
      (kernel_compare_eq_vec2 T EPS_T lhs rhs \<longleftrightarrow>
         (\<forall>i<VECTOR_NDIM. is_nan (fsub T (lhs ! i) (rhs ! i)) \<or>
                           flt (fabs (fsub T (lhs ! i) (rhs ! i))) (EPS_T T))))"
proof (intro conjI impI)
  show "kernel_compare_eq_vec4 T EPS lhs rhs \<longleftrightarrow>
      \<not> (\<exists>i<VECTOR_SIZE. fge (fabs (fsub T (lhs ! i) (rhs ! i))) (static_cast T EPS))"
    by (simp add: kernel_compare_eq_vec4_def all_loop_iff)
  show "kernel_compare_eq_vec2 T EPS_T lhs rhs \<longleftrightarrow>
      \<not> (\<exists>i<VECTOR_NDIM. fge (fabs (fsub T (lhs ! i) (rhs ! i))) (EPS_T T))"
    by (simp add: kernel_compare_eq_vec2_def all_loop_iff)
next
  assume "\<not> is_nan EPS"
  then have "\<not> is_nan (static_cast T EPS)"
    by (simp add: static_cast_not_nan)
  then show "kernel_compare_eq_vec4 T EPS lhs rhs \<longleftrightarrow>
         (\<forall>i<VECTOR_SIZE. is_nan (fsub T (lhs ! i) (rhs ! i)) \<or>
                           flt (fabs (fsub T (lhs ! i) (rhs ! i))) (static_cast T EPS))"
    by (simp add: kernel_compare_eq_vec4_def all_loop_iff tolerance_test)
next
  assume "\<not> is_nan (EPS_T T)"
  then show "kernel_compare_eq_vec2 T EPS_T lhs rhs \<longleftrightarrow>
         (\<forall>i<VECTOR_NDIM. is_nan (fsub T (lhs ! i) (rhs ! i)) \<or>
                           flt (fabs (fsub T (lhs ! i) (rhs ! i))) (EPS_T T))"
    by (simp add: kernel_compare_eq_vec2_def all_loop_iff tolerance_test)
qed

text \<open>
  Vector2 in Float32 with the tolerance 1.0e-6: \<open>(1, NaN)\<close> compares equal to
  \<open>(1 + 2^-20, +inf)\<close> and unequal to \<open>(1.5, +inf)\<close>.
\<close>

theorem C2_witness:
  "\<not> is_nan (Finite False 8796093 (- 43)) \<and>
   kernel_compare_eq_vec2 Float32 (\<lambda>T. Finite False 8796093 (- 43))
     [Finite False 8388608 (- 23), NaN] [Finite False 8388616 (- 23), Infinity False] \<and>
   \<not> kernel_compare_eq_vec2 Float32 (\<lambda>T. Finite False 8796093 (- 43))
     [Finite False 8388608 (- 23), NaN] [Finite False 12582912 (- 23), Infinity False]"
proof -
  have eps: "\<not> is_nan ((\<lambda>T. Finite False 8796093 (- 43)) Float32)" by simp
  have small: "flt (fabs (fsub Float32 (Finite False 8388608 (- 23)) (Finite False 8388616 (- 23))))
                 (Finite False 8796093 (- 43))"
    by (simp add: fsub_def aligned_def rnd_def bitlen_0 flt_def int_cmp_def Let_def)
  have big: "\<not> flt (fabs (fsub Float32 (Finite False 8388608 (- 23)) (Finite False 12582912 (- 23))))
                 (Finite False 8796093 (- 43))"
    by (simp add: fsub_def aligned_def rnd_def bitlen_0 flt_def int_cmp_def Let_def)
  have big': "\<not> is_nan (fsub Float32 (Finite False 8388608 (- 23)) (Finite False 12582912 (- 23)))"
    by (simp add: fsub_def aligned_def rnd_def bitlen_0 Let_def)
  have nan: "is_nan (fsub Float32 NaN (Infinity False))"
    by (simp add: fsub_def)
  have two: "(\<forall>i<VECTOR_NDIM. P i) \<longleftrightarrow> P 0 \<and> P (Suc 0)" for P
    by (auto simp: VECTOR_NDIM_def less_Suc_eq eval_nat_numeral)
  note iff = C2_compare_eq_componentwise
    [where T = Float32 and EPS_T = "\<lambda>T. Finite False 8796093 (- 43)",
      THEN conjunct2, THEN conjunct2, THEN conjunct2, THEN mp, OF eps]
  have "kernel_compare_eq_vec2 Float32 (\<lambda>T. Finite False 8796093 (- 43))
     [Finite False 8388608 (- 23), NaN] [Finite False 8388616 (- 23), Infinity False]"
    using small nan by (simp add: iff two)
  moreover have "\<not> kernel_compare_eq_vec2 Float32 (\<lambda>T. Finite False 8796093 (- 43))
     [Finite False 8388608 (- 23), NaN] [Finite False 12582912 (- 23), Infinity False]"
    using big big' by (simp add: iff two)
  ultimately show ?thesis
    by simp
qed

text \<open>
  Vector4 in Float32, with 1.0e-6 for \<open>math::EPS\<close>: \<open>(NaN, 0, 0, 0)\<close> compares equal to
  \<open>(0, 0, 0, 0)\<close>, though the first components do not differ by less than the tolerance.
\<close>

theorem C2_counterexample:
  "kernel_compare_eq_vec4 Float32 (Finite False 4722366482869645 (- 72))
     [NaN, fzero Float32, fzero Float32, fzero Float32]
     [fzero Float32, fzero Float32, fzero Float32, fzero Float32] \<and>
   \<not> flt (fabs (fsub Float32
             ([NaN, fzero Float32, fzero Float32, fzero Float32] ! 0)
             ([fzero Float32, fzero Float32, fzero Float32, fzero Float32] ! 0)))
          (static_cast Float32 (Finite False 4722366482869645 (- 72)))"
proof -
  have four: "(\<forall>i<VECTOR_SIZE. P i) \<longleftrightarrow> P 0 \<and> P (Suc 0) \<and> P (Suc (Suc 0)) \<and> P (Suc (Suc (Suc 0)))" for P
    by (auto simp: VECTOR_SIZE_def less_Suc_eq eval_nat_numeral)
  have eps: "static_cast Float32 (Finite False 4722366482869645 (- 72)) = Finite False 8796093 (- 43)"
    by (simp add: rnd_def Let_def)
  have "kernel_compare_eq_vec4 Float32 (Finite False 4722366482869645 (- 72))
     [NaN, fzero Float32, fzero Float32, fzero Float32]
     [fzero Float32, fzero Float32, fzero Float32, fzero Float32]"
    unfolding kernel_compare_eq_vec4_def eps
    by (simp add: all_loop_iff four fsub_def fge_def fzero_def aligned_def int_cmp_def)
  moreover have "\<not> flt (fabs (fsub Float32 NaN (fzero Float32)))
      (static_cast Float32 (Finite False 4722366482869645 (- 72)))"
    by (simp add: fsub_def flt_def)
  ultimately show ?thesis by simp
qed

text \<open>
  C4. Normalising the all-zero Vector4 (each component a zero of either sign) is not an
  error path: the squared length is zero, its root is zero, and every component of the
  result is the NaN that the division of zero by zero gives; no component is finite.
  The kernel has no error outcome at all: for every buffer it returns a buffer of the
  same length.
\<close>

theorem C4_normalize_zero_vector:
  "(length v = VECTOR_SIZE \<and> list_all is_zero v \<longrightarrow>
      kernel_normalize_in_place_vec4 T v = replicate VECTOR_SIZE NaN \<and>
      list_all (\<lambda>x. \<not> is_finite x) (kernel_normalize_in_place_vec4 T v)) \<and>
   length (kernel_normalize_in_place_vec4 T w) = length w"
proof (intro conjI impI)
  assume v: "length v = VECTOR_SIZE \<and> list_all is_zero v"
  then have len: "kernel_length_square_vec4 T v = fzero T"
    by (simp add: length_square_zero)
  from v have "fdiv T x (fzero T) = NaN" if "x \<in> set v" for x
    using that by (simp add: list_all_iff fdiv_zero_zero)
  then have "map (\<lambda>x. fdiv T x (fzero T)) v = replicate (length v) NaN"
    by (rule map_all_const)
  with v len show res: "kernel_normalize_in_place_vec4 T v = replicate VECTOR_SIZE NaN"
    using update_loop [of v VECTOR_SIZE "\<lambda>x. fdiv T x (fzero T)"]
    by (simp add: kernel_normalize_in_place_vec4_def fsqrt_zero)
  show "list_all (\<lambda>x. \<not> is_finite x) (kernel_normalize_in_place_vec4 T v)"
    by (simp add: res list_all_iff)
next
  show "length (kernel_normalize_in_place_vec4 T w) = length w"
    by (simp add: kernel_normalize_in_place_vec4_def Let_def for_loop_fold fold_update_length)
qed

text \<open>The vector \<open>(0, -0, 0, 0)\<close> in Float32.\<close>

theorem C4_witness:
  "length [fzero Float32, fneg (fzero Float32), fzero Float32, fzero Float32] = VECTOR_SIZE \<and>
   list_all is_zero [fzero Float32, fneg (fzero Float32), fzero Float32, fzero Float32] \<and>
   kernel_normalize_in_place_vec4 Float32
     [fzero Float32, fneg (fzero Float32), fzero Float32, fzero Float32] = [NaN, NaN, NaN, NaN]"
  using C4_normalize_zero_vector
    [of "[fzero Float32, fneg (fzero Float32), fzero Float32, fzero Float32]" Float32 "[]"]
  by (simp add: VECTOR_SIZE_def fzero_def eval_nat_numeral)

text \<open>
  C5. For every pair of matrices, every element type and every build configuration,
  \<open>operator==\<close> returns what the scalar kernel \<open>kernel_compare_eq_mat4\<close> returns on the two
  element buffers, and \<open>operator!=\<close> its negation: the result does not depend on which
  of \<open>LOCOMATH_AVX_ENABLED\<close> and \<open>LOCOMATH_SSE_ENABLED\<close> is defined.
\<close>

theorem C5_eq_uses_scalar_kernel:
  "eq_mat4 cfg K T lhs rhs = scalar_kernel_compare_eq_mat4 K T (elements lhs) (elements rhs) \<and>
   neq_mat4 cfg K T lhs rhs = (\<not> scalar_kernel_compare_eq_mat4 K T (elements lhs) (elements rhs)) \<and>
   eq_mat4 cfg K T lhs rhs = eq_mat4 cfg' K T lhs rhs \<and>
   neq_mat4 cfg K T lhs rhs = neq_mat4 cfg' K T lhs rhs"
  by (simp add: eq_mat4_def neq_mat4_def)

text \<open>
  C6. For every Vector4 buffer \<open>v\<close> and both element types, \<open>kernel_length_square_vec4\<close>
  returns the very value \<open>kernel_dot_vec4\<close> returns on \<open>v\<close> and \<open>v\<close>: the two loops start
  from the same zero and accumulate the same products in the same order, so the
  results are equal for every input, the non-finite ones included.
\<close>

theorem C6_length_square_is_dot_self:
  "kernel_length_square_vec4 T v = kernel_dot_vec4 T v v"
  by (simp add: kernel_length_square_vec4_def kernel_dot_vec4_def)

text \<open>
  C7. The scalar dot kernels are commutative: for every pair of buffers and both
  element types \<open>dot(a, b)\<close> and \<open>dot(b, a)\<close> are the same value, for Vector4 and for
  Vector2.
\<close>

theorem C7_dot_commutative:
  "kernel_dot_vec4 T a b = kernel_dot_vec4 T b a \<and> kernel_dot_vec2 T a b = kernel_dot_vec2 T b a"
  by (simp add: kernel_dot_vec4_def kernel_dot_vec2_def fmul_commute [of T "a ! _" "b ! _"])

text \<open>
  C8. For every vector \<open>a\<close> of finite components (Vector4 and Vector2, both element
  types): scaling by one returns \<open>a\<close> itself, which also compares equal to \<open>a\<close>; scaling by
  zero returns a vector whose components are all zeros, and which compares equal to
  the all-zero vector. The comparisons are those of \<open>compare_eq\<close>, with a tolerance that
  is greater than zero.
\<close>

theorem C8_scale_identities:
  assumes "list_all (\<lambda>x. is_finite x \<and> valid T x) a"
    and "flt (fzero T) (static_cast T EPS)" and "flt (fzero T) (EPS_T T)"
  shows "(length a = VECTOR_SIZE \<and> length dst = VECTOR_SIZE \<longrightarrow>
            kernel_scale_vec4 T dst (fone T) a = a \<and>
            kernel_compare_eq_vec4 T EPS (kernel_scale_vec4 T dst (fone T) a) a \<and>
            list_all is_zero (kernel_scale_vec4 T dst (fzero T) a) \<and>
            kernel_compare_eq_vec4 T EPS (kernel_scale_vec4 T dst (fzero T) a)
              (replicate VECTOR_SIZE (fzero T))) \<and>
         (length a = VECTOR_NDIM \<and> length dst = VECTOR_NDIM \<longrightarrow>
            kernel_scale_vec2 T dst (fone T) a = a \<and>
            kernel_compare_eq_vec2 T EPS_T (kernel_scale_vec2 T dst (fone T) a) a \<and>
            list_all is_zero (kernel_scale_vec2 T dst (fzero T) a) \<and>
            kernel_compare_eq_vec2 T EPS_T (kernel_scale_vec2 T dst (fzero T) a)
              (replicate VECTOR_NDIM (fzero T)))"
proof (intro conjI impI)
  assume len: "length a = VECTOR_SIZE \<and> length dst = VECTOR_SIZE"
  with assms show one: "kernel_scale_vec4 T dst (fone T) a = a"
    by (simp add: kernel_scale_vec4_def scale_by_one)
  from assms show "kernel_compare_eq_vec4 T EPS (kernel_scale_vec4 T dst (fone T) a) a"
    by (simp add: one kernel_compare_eq_vec4_def all_loop_iff within_self)
  from len assms show zero: "list_all is_zero (kernel_scale_vec4 T dst (fzero T) a)"
    by (simp add: kernel_scale_vec4_def scale_by_zero)
  have "length (kernel_scale_vec4 T dst (fzero T) a) = VECTOR_SIZE"
    using len by (simp add: kernel_scale_vec4_def for_loop_fold fold_update_length)
  with zero assms show "kernel_compare_eq_vec4 T EPS (kernel_scale_vec4 T dst (fzero T) a)
              (replicate VECTOR_SIZE (fzero T))"
    by (simp add: kernel_compare_eq_vec4_def zeros_compare_eq)
next
  assume len: "length a = VECTOR_NDIM \<and> length dst = VECTOR_NDIM"
  with assms show one: "kernel_scale_vec2 T dst (fone T) a = a"
    by (simp add: kernel_scale_vec2_def scale_by_one)
  from assms show "kernel_compare_eq_vec2 T EPS_T (kernel_scale_vec2 T dst (fone T) a) a"
    by (simp add: one kernel_compare_eq_vec2_def all_loop_iff within_self)
  from len assms show zero: "list_all is_zero (kernel_scale_vec2 T dst (fzero T) a)"
    by (simp add: kernel_scale_vec2_def scale_by_zero)
  have "length (kernel_scale_vec2 T dst (fzero T) a) = VECTOR_NDIM"
    using len by (simp add: kernel_scale_vec2_def for_loop_fold fold_update_length)
  with zero assms show "kernel_compare_eq_vec2 T EPS_T (kernel_scale_vec2 T dst (fzero T) a)
              (replicate VECTOR_NDIM (fzero T))"
    by (simp add: kernel_compare_eq_vec2_def zeros_compare_eq)
qed

text \<open>
  The vector \<open>(1, -3, 2^-149, 0)\<close> in Float32, written over a buffer of NaNs, with 1.0e-6
  for \<open>math::EPS\<close>.
\<close>

theorem C8_witness:
  "list_all (\<lambda>x. is_finite x \<and> valid Float32 x)
     [Finite False 8388608 (- 23), Finite True 12582912 (- 22), Finite False 1 (- 149),
      Finite False 0 (- 149)] \<and>
   flt (fzero Float32) (static_cast Float32 (Finite False 4722366482869645 (- 72))) \<and>
   kernel_scale_vec4 Float32 [NaN, NaN, NaN, NaN] (fone Float32)
     [Finite False 8388608 (- 23), Finite True 12582912 (- 22), Finite False 1 (- 149),
      Finite False 0 (- 149)] =
     [Finite False 8388608 (- 23), Finite True 12582912 (- 22), Finite False 1 (- 149),
      Finite False 0 (- 149)] \<and>
   kernel_compare_eq_vec4 Float32 (Finite False 4722366482869645 (- 72))
     (kernel_scale_vec4 Float32 [NaN, NaN, NaN, NaN] (fzero Float32)
        [Finite False 8388608 (- 23), Finite True 12582912 (- 22), Finite False 1 (- 149),
         Finite False 0 (- 149)])
     (replicate VECTOR_SIZE (fzero Float32))"
proof -
  have fin: "list_all (\<lambda>x. is_finite x \<and> valid Float32 x)
     [Finite False 8388608 (- 23), Finite True 12582912 (- 22), Finite False 1 (- 149),
      Finite False 0 (- 149)]"
    by simp
  have pos: "flt (fzero Float32) (static_cast Float32 (Finite False 4722366482869645 (- 72)))"
    by (simp add: rnd_def Let_def flt_def fzero_def aligned_def int_cmp_def)
  have pos': "flt (fzero Float32) ((\<lambda>T. Finite False 8796093 (- 43)) Float32)"
    by (simp add: flt_def fzero_def aligned_def int_cmp_def)
  have len: "length [Finite False 8388608 (- 23), Finite True 12582912 (- 22), Finite False 1 (- 149),
      Finite False 0 (- 149)] = VECTOR_SIZE \<and> length [NaN, NaN, NaN, NaN] = VECTOR_SIZE"
    by (simp add: VECTOR_SIZE_def)
  note inst = C8_scale_identities
    [where EPS_T = "\<lambda>T. Finite False 8796093 (- 43)", OF fin pos pos', THEN conjunct1, THEN mp,
      OF len]
  from inst fin pos show ?thesis by simp
qed

text \<open>
  C9. For every vector \<open>x\<close>, whatever its components (NaN and the infinities included),
  \<open>compare_eq(x, x)\<close> returns true, for a tolerance that is greater than zero: a finite
  component differs from itself by zero, and the difference of a non-finite component
  with itself is NaN, on which the test \<open>>=\<close> is false.
\<close>

theorem C9_compare_eq_reflexive:
  "(flt (fzero T) (static_cast T EPS) \<longrightarrow> kernel_compare_eq_vec4 T EPS x x) \<and>
   (flt (fzero T) (EPS_T T) \<longrightarrow> kernel_compare_eq_vec2 T EPS_T x x)"
  by (simp add: kernel_compare_eq_vec4_def kernel_compare_eq_vec2_def all_loop_iff within_self)

text \<open>The vector \<open>(NaN, -inf, 3, 0)\<close> in Float32, with 1.0e-6 for \<open>math::EPS\<close>.\<close>

theorem C9_witness:
  "flt (fzero Float32) (static_cast Float32 (Finite False 4722366482869645 (- 72))) \<and>
   kernel_compare_eq_vec4 Float32 (Finite False 4722366482869645 (- 72))
     [NaN, Infinity True, Finite False 12582912 (- 22), fzero Float32]
     [NaN, Infinity True, Finite False 12582912 (- 22), fzero Float32]"
proof -
  have pos: "flt (fzero Float32) (static_cast Float32 (Finite False 4722366482869645 (- 72)))"
    by (simp add: rnd_def Let_def flt_def fzero_def aligned_def int_cmp_def)
  from pos C9_compare_eq_reflexive [THEN conjunct1, THEN mp, OF pos] show ?thesis
    by simp
qed

text \<open>
  C10. For every matrix, every \<open>double\<close> scalar, every element type and every build
  configuration, \<open>scale * mat\<close> and \<open>mat * scale\<close> are the same matrix: both operators call
  the scale kernel of the same backend on the same cast scalar and the same buffers.
\<close>

theorem C10_scalar_product_sides_agree:
  "mul_scalar_mat4 cfg K T scale mat = mul_mat4_scalar cfg K T mat scale"
  by (simp add: mul_scalar_mat4_def mul_mat4_scalar_def)

end
